theory Spec2Isabelle
  imports Main
begin

section \<open>Instants and durations\<close>

text \<open>
  A naive \<^verbatim>\<open>datetime\<close> is an integer number of microseconds since 1970-01-01T00:00:00,
  a \<^verbatim>\<open>timedelta\<close> an integer number of microseconds. \<^verbatim>\<open>isoformat\<close> followed by
  \<^verbatim>\<open>fromisoformat\<close> gives the instant back, so the string passed as \<^verbatim>\<open>start_str\<close>
  is represented by the instant it denotes.
\<close>

definition one_day :: int where
  "one_day = 86400000000"

definition one_year :: int where
  \<comment> \<open>\<^verbatim>\<open>timedelta(days=365)\<close>\<close>
  "one_year = 365 * one_day"

definition epoch_floor :: int where
  \<comment> \<open>\<^verbatim>\<open>datetime(2017, 1, 1)\<close>: 17167 days after 1970-01-01\<close>
  "epoch_floor = 17167 * one_day"

section \<open>Errors\<close>

datatype py_error =
    KeyError string
  | IndexError
  | ValueError
  | AttributeError
  | RemoteError string

section \<open>Data frames\<close>

text \<open>
  A cell of a frame: text as \<^verbatim>\<open>read_csv\<close> delivers it, either the ISO-8601 rendering of
  an instant (\<open>IsoText\<close>) or any other text (\<open>Text\<close>), a parsed timestamp
  (\<open>Datetime\<close>), or the missing timestamp \<open>NaT\<close>. A row maps column names to cells;
  a name without a cell is a missing value. A frame has its column names and its rows.
\<close>

datatype cell = Text string | IsoText int | Datetime int | NaT

type_synonym row = "string \<rightharpoonup> cell"

record frame =
  columns :: "string list"
  rows :: "row list"

definition DataFrame :: frame where
  \<comment> \<open>\<^verbatim>\<open>pd.DataFrame()\<close>\<close>
  "DataFrame = \<lparr>columns = [], rows = []\<rparr>"

definition getitem :: "frame \<Rightarrow> string \<Rightarrow> py_error + cell option list" where
  \<comment> \<open>\<^verbatim>\<open>df[name]\<close>\<close>
  "getitem df name =
     (if name \<in> set (columns df) then Inr (map (\<lambda>r. r name) (rows df))
      else Inl (KeyError name))"

definition setitem :: "frame \<Rightarrow> string \<Rightarrow> cell option list \<Rightarrow> frame" where
  \<comment> \<open>\<^verbatim>\<open>df[name] = series\<close>, the series as long as the frame\<close>
  "setitem df name series =
     \<lparr>columns = (if name \<in> set (columns df) then columns df else columns df @ [name]),
      rows = map (\<lambda>(r, v). r(name := v)) (zip (rows df) series)\<rparr>"

fun to_datetime_cell :: "cell option \<Rightarrow> py_error + cell option" where
  "to_datetime_cell None = Inr (Some NaT)"
| "to_datetime_cell (Some NaT) = Inr (Some NaT)"
| "to_datetime_cell (Some (Datetime t)) = Inr (Some (Datetime t))"
| "to_datetime_cell (Some (IsoText t)) = Inr (Some (Datetime t))"
| "to_datetime_cell (Some (Text s)) = Inl ValueError"

fun to_datetime :: "cell option list \<Rightarrow> py_error + cell option list" where
  \<comment> \<open>\<^verbatim>\<open>pd.to_datetime(series, format='ISO8601')\<close>\<close>
  "to_datetime [] = Inr []"
| "to_datetime (c # cs) =
     (case to_datetime_cell c of
        Inl e \<Rightarrow> Inl e
      | Inr d \<Rightarrow> (case to_datetime cs of Inl e \<Rightarrow> Inl e | Inr ds \<Rightarrow> Inr (d # ds)))"

definition iloc :: "'a list \<Rightarrow> int \<Rightarrow> py_error + 'a" where
  \<comment> \<open>\<^verbatim>\<open>series.iloc[i]\<close>: position \<open>i\<close> from the front, or \<open>- i\<close> from the end\<close>
  "iloc xs i =
     (if 0 \<le> i \<and> i < int (length xs) then Inr (xs ! nat i)
      else if i < 0 \<and> - i \<le> int (length xs) then Inr (xs ! (length xs - nat (- i)))
      else Inl IndexError)"

definition iloc_drop_last :: "frame \<Rightarrow> frame" where
  \<comment> \<open>\<^verbatim>\<open>df.iloc[:-1]\<close>\<close>
  "iloc_drop_last df = df\<lparr>rows := butlast (rows df)\<rparr>"

fun isoformat :: "cell option \<Rightarrow> py_error + int" where
  \<comment> \<open>\<^verbatim>\<open>x.isoformat()\<close>, read back by \<^verbatim>\<open>datetime.fromisoformat\<close>: only a timestamp has
      the method, and the text of \<open>NaT\<close> is refused by \<^verbatim>\<open>fromisoformat\<close>\<close>
  "isoformat (Some (Datetime t)) = Inr t"
| "isoformat (Some NaT) = Inl ValueError"
| "isoformat _ = Inl AttributeError"

section \<open>The world: files, the remote client, the trace of effects\<close>

datatype klines_type = SPOT | FUTURES

text \<open>
  The effects of a run in the order they happen: the lines logged by the fetch loop and by
  the skip of a data source, the calls of the remote client with their arguments, the
  directories made and the files written.
\<close>

datatype event =
    LogFetching int "int option"
  | LogSkip
  | GetKlines string string nat
  | GetHistoricalKlines string string int "int option" klines_type
  | Mkdir string
  | ToCsv string frame

record world =
  files :: "string \<rightharpoonup> frame"
  trace :: "event list"

text \<open>
  The Binance client is outside the repository: its two calls are functions that return
  klines or raise. The type \<open>'k\<close> is the kline as the client delivers it.
\<close>

record 'k client =
  get_klines :: "string \<Rightarrow> string \<Rightarrow> nat \<Rightarrow> py_error + 'k list"
  get_historical_klines ::
    "string \<Rightarrow> string \<Rightarrow> int \<Rightarrow> int option \<Rightarrow> klines_type \<Rightarrow> py_error + 'k list"

definition render_cell :: "cell \<Rightarrow> cell option" where
  \<comment> \<open>what \<^verbatim>\<open>to_csv\<close> writes for a cell and \<^verbatim>\<open>read_csv\<close> reads back\<close>
  "render_cell c = (case c of Datetime t \<Rightarrow> Some (IsoText t) | NaT \<Rightarrow> None | _ \<Rightarrow> Some c)"

definition render_row :: "row \<Rightarrow> row" where
  "render_row r = (\<lambda>name. case r name of None \<Rightarrow> None | Some c \<Rightarrow> render_cell c)"

definition to_csv :: "frame \<Rightarrow> string \<Rightarrow> world \<Rightarrow> world" where
  \<comment> \<open>\<^verbatim>\<open>df.to_csv(file_name)\<close>\<close>
  "to_csv df file_name w =
     (let csv = \<lparr>columns = columns df, rows = map render_row (rows df)\<rparr>
      in \<lparr>files = (files w)(file_name \<mapsto> csv), trace = trace w @ [ToCsv file_name csv]\<rparr>)"

section \<open>The fetch loop of \<^verbatim>\<open>get_binance_historical_klines\<close>\<close>

text \<open>
  The \<^verbatim>\<open>while\<close> loop, lines 155 to 180. The flag \<^verbatim>\<open>more_data_to_fetch\<close> is true exactly
  when \<^verbatim>\<open>end_dt\<close> is set. The function \<open>klines_to_df\<close> of \<^verbatim>\<open>common/utils.py\<close> is a
  parameter. The loop returns the events it caused and the merged frame, or the error of
  the remote call that raised.
\<close>

function fetch_loop ::
  "'k client \<Rightarrow> ('k list \<Rightarrow> frame \<Rightarrow> frame) \<Rightarrow> string \<Rightarrow> string \<Rightarrow> int \<Rightarrow> klines_type \<Rightarrow>
   int \<Rightarrow> int \<Rightarrow> frame \<Rightarrow> event list \<times> (py_error + frame)" where
  "fetch_loop cl klines_to_df symbol interval start_str ktype now start_point_dt df =
     (let difference = now - start_point_dt;
          end_dt = (if difference > one_year then Some (start_point_dt + one_year) else None);
          evs = [LogFetching start_point_dt end_dt,
                 GetHistoricalKlines symbol interval start_str end_dt ktype]
      in case get_historical_klines cl symbol interval start_str end_dt ktype of
           Inl e \<Rightarrow> (evs, Inl e)
         | Inr klines \<Rightarrow>
             (let df' = klines_to_df klines df
              in case end_dt of
                   None \<Rightarrow> (evs, Inr df')
                 | Some e \<Rightarrow>
                     (case fetch_loop cl klines_to_df symbol interval start_str ktype now
                             (e - one_day) df' of
                        (evs', r) \<Rightarrow> (evs @ evs', r))))"
  by pat_completeness auto
termination
  by (relation "measure (\<lambda>(cl, k, s, i, st, kt, now, sp, df). nat (now - sp))")
     (auto simp: one_year_def one_day_def split: if_splits)

definition get_binance_historical_klines ::
  "'k client \<Rightarrow> ('k list \<Rightarrow> frame \<Rightarrow> frame) \<Rightarrow> int \<Rightarrow> string \<Rightarrow> string \<Rightarrow> int \<Rightarrow> klines_type \<Rightarrow>
   frame \<Rightarrow> string \<Rightarrow> world \<Rightarrow> py_error option \<times> world" where
  \<comment> \<open>\<open>now\<close> is the reading of \<^verbatim>\<open>datetime.now()\<close> at line 147\<close>
  "get_binance_historical_klines cl klines_to_df now symbol interval start_str ktype df file_name w =
     (case fetch_loop cl klines_to_df symbol interval start_str ktype now start_str df of
        (evs, Inl e) \<Rightarrow> (Some e, w\<lparr>trace := trace w @ evs\<rparr>)
      | (evs, Inr merged) \<Rightarrow>
          (None, to_csv (iloc_drop_last merged) file_name (w\<lparr>trace := trace w @ evs\<rparr>)))"

section \<open>The download loop of \<^verbatim>\<open>main\<close>\<close>

text \<open>
  What \<^verbatim>\<open>main\<close> reads from the configuration: the name of the time column, the data
  folder, and the Binance frequency (the value of \<^verbatim>\<open>binance_freq_from_pandas\<close>, a function
  outside the sources at hand, on the configured frequency).
\<close>

record config =
  time_column :: string
  data_folder :: string
  binance_freq :: string

text \<open>
  An entry of \<^verbatim>\<open>data_sources\<close>: the values of \<^verbatim>\<open>ds.get("folder")\<close>, \<^verbatim>\<open>ds.get("type")\<close> and
  \<^verbatim>\<open>ds.get("file")\<close>, \<open>None\<close> for a missing key. The file is a path without a suffix, so
  that \<^verbatim>\<open>with_suffix(".csv")\<close> appends the suffix.
\<close>

record data_source =
  ds_folder :: "string option"
  ds_type :: "string option"
  ds_file :: "string option"

definition load_existing :: "string \<Rightarrow> frame \<Rightarrow> py_error + frame" where
  \<comment> \<open>lines 117 and 118, on the frame that \<^verbatim>\<open>read_csv\<close> delivers\<close>
  "load_existing tc csv =
     (case getitem csv tc of
        Inl e \<Rightarrow> Inl e
      | Inr series \<Rightarrow>
          (case to_datetime series of
             Inl e \<Rightarrow> Inl e
           | Inr parsed \<Rightarrow> Inr (setitem csv tc parsed)))"

definition oldest_point_of :: "frame \<Rightarrow> py_error + cell option" where
  \<comment> \<open>line 121: \<^verbatim>\<open>df["timestamp"].iloc[-5]\<close>\<close>
  "oldest_point_of df =
     (case getitem df ''timestamp'' of
        Inl e \<Rightarrow> Inl e
      | Inr series \<Rightarrow> iloc series (- 5))"

fun resume_point :: "string \<Rightarrow> frame option \<Rightarrow> py_error + frame \<times> cell option" where
  \<comment> \<open>lines 108 to 121: the frame to extend and \<^verbatim>\<open>oldest_point\<close>\<close>
  "resume_point tc None = Inr (DataFrame, Some (Datetime epoch_floor))"
| "resume_point tc (Some csv) =
     (case load_existing tc csv of
        Inl e \<Rightarrow> Inl e
      | Inr df \<Rightarrow>
          (case oldest_point_of df of
             Inl e \<Rightarrow> Inl e
           | Inr p \<Rightarrow> Inr (df, p)))"

definition log_event :: "event \<Rightarrow> world \<Rightarrow> world" where
  "log_event ev w = w\<lparr>trace := trace w @ [ev]\<rparr>"

definition download_job ::
  "config \<Rightarrow> 'k client \<Rightarrow> ('k list \<Rightarrow> frame \<Rightarrow> frame) \<Rightarrow> data_source \<Rightarrow> int \<Rightarrow> world \<Rightarrow>
   py_error option \<times> world" where
  \<comment> \<open>the body of the loop over \<^verbatim>\<open>data_sources\<close>, lines 86 to 133; \<open>now\<close> is the clock
      reading that \<^verbatim>\<open>get_binance_historical_klines\<close> takes for this data source\<close>
  "download_job cfg cl klines_to_df ds now w =
     (case ds_folder ds of
        None \<Rightarrow> (None, log_event LogSkip w)
      | Some quote \<Rightarrow>
          if quote = [] then (None, log_event LogSkip w)
          else
            (let data_source_type = (if ds_type ds = Some ''futures'' then FUTURES else SPOT);
                 w1 = log_event (Mkdir (data_folder cfg @ ''/'' @ quote)) w
             in case ds_file ds of
                  None \<Rightarrow> (Some AttributeError, w1)
                | Some f \<Rightarrow>
                    (let file_name = f @ ''.csv'';
                         w2 = log_event (GetKlines quote (binance_freq cfg) 5) w1
                     in case get_klines cl quote (binance_freq cfg) 5 of
                          Inl e \<Rightarrow> (Some e, w2)
                        | Inr latest_klines \<Rightarrow>
                            if latest_klines = [] then (Some IndexError, w2)
                            else
                              (case resume_point (time_column cfg) (files w2 file_name) of
                                 Inl e \<Rightarrow> (Some e, w2)
                               | Inr (df, oldest_point) \<Rightarrow>
                                   (case isoformat oldest_point of
                                      Inl e \<Rightarrow> (Some e, w2)
                                    | Inr start_str \<Rightarrow>
                                        get_binance_historical_klines cl klines_to_df now quote
                                          (binance_freq cfg) start_str data_source_type df
                                          file_name w2)))))"

text \<open>
  The \<^verbatim>\<open>for\<close> loop of \<^verbatim>\<open>main\<close> over the data sources, lines 85 to 133. An exception is
  not caught anywhere in \<^verbatim>\<open>main\<close>: the first one ends the loop and leaves \<^verbatim>\<open>main\<close>. Each
  data source comes with the clock reading of its call of
  \<^verbatim>\<open>get_binance_historical_klines\<close>. What \<^verbatim>\<open>main\<close> does before the loop (the configuration, the
  logger, the client) and after it (the elapsed time, \<^verbatim>\<open>return df\<close>) is not part of the
  function.
\<close>

fun main_loop :: "config \<Rightarrow> 'k client \<Rightarrow> ('k list \<Rightarrow> frame \<Rightarrow> frame) \<Rightarrow> (data_source \<times> int) list \<Rightarrow>
   world \<Rightarrow> py_error option \<times> world" where
  "main_loop cfg cl klines_to_df [] w = (None, w)"
| "main_loop cfg cl klines_to_df ((ds, now) # rest) w =
     (case download_job cfg cl klines_to_df ds now w of
        (Some e, w') \<Rightarrow> (Some e, w')
      | (None, w') \<Rightarrow> main_loop cfg cl klines_to_df rest w')"

section \<open>Reading the trace\<close>

text \<open>
  The windows the fetch loop announces (line 164), the ranges it requests from the client
  (lines 168 to 174), and the files written (line 185), each in the order of the trace.
\<close>

fun windows_of :: "event list \<Rightarrow> (int \<times> int option) list" where
  "windows_of [] = []"
| "windows_of (LogFetching s e # evs) = (s, e) # windows_of evs"
| "windows_of (ev # evs) = windows_of evs"

fun requests_of :: "event list \<Rightarrow> (int \<times> int option) list" where
  "requests_of [] = []"
| "requests_of (GetHistoricalKlines sy itv s e kt # evs) = (s, e) # requests_of evs"
| "requests_of (ev # evs) = requests_of evs"

fun writes_of :: "event list \<Rightarrow> (string \<times> frame) list" where
  "writes_of [] = []"
| "writes_of (ToCsv f csv # evs) = (f, csv) # writes_of evs"
| "writes_of (ev # evs) = writes_of evs"

text \<open>
  Adjacent windows that meet end to start, and adjacent windows as the loop makes them: a
  bounded window of one year, the next one starting a day before its end.
\<close>

fun contiguous :: "(int \<times> int option) list \<Rightarrow> bool" where
  "contiguous ((s, e) # (s', e') # ws) = (e = Some s' \<and> contiguous ((s', e') # ws))"
| "contiguous ws = True"

fun overlapping :: "(int \<times> int option) list \<Rightarrow> bool" where
  "overlapping ((s, e) # (s', e') # ws) =
     (e = Some (s + one_year) \<and> s' = s + one_year - one_day \<and> overlapping ((s', e') # ws))"
| "overlapping ws = True"

fun covers :: "int \<times> int option \<Rightarrow> int \<Rightarrow> bool" where
  "covers (a, None) t = (a \<le> t)"
| "covers (a, Some e) t = (a \<le> t \<and> t < e)"

section \<open>Concrete clients and worlds\<close>

definition empty_world :: world where
  "empty_world = \<lparr>files = Map.empty, trace = []\<rparr>"

definition quiet_client :: "unit client" where
  \<comment> \<open>a client with one recent kline and no klines in any range\<close>
  "quiet_client =
     \<lparr>get_klines = (\<lambda>symbol interval limit. Inr [()]),
      get_historical_klines = (\<lambda>symbol interval start_str end_str ktype. Inr [])\<rparr>"

definition keep_frame :: "unit list \<Rightarrow> frame \<Rightarrow> frame" where
  \<comment> \<open>a merge for the quiet client, which never delivers a kline\<close>
  "keep_frame klines df = df"

definition append_rows :: "row list \<Rightarrow> frame \<Rightarrow> frame" where
  \<comment> \<open>a merge that puts the fetched rows after the rows of the frame\<close>
  "append_rows klines df = \<lparr>columns = columns df, rows = rows df @ klines\<rparr>"

definition one_bar_client :: "row client" where
  \<comment> \<open>a client that delivers the one bar of 2017-01-01 to every call\<close>
  "one_bar_client =
     \<lparr>get_klines = (\<lambda>symbol interval limit. Inr [[''timestamp'' \<mapsto> Datetime epoch_floor]]),
      get_historical_klines = (\<lambda>symbol interval start_str end_str ktype.
         Inr [[''timestamp'' \<mapsto> Datetime epoch_floor]])\<rparr>"

definition flaky_client :: "unit client" where
  \<comment> \<open>a client whose range fetch raises for the symbol \<open>AAA\<close>\<close>
  "flaky_client =
     \<lparr>get_klines = (\<lambda>symbol interval limit. Inr [()]),
      get_historical_klines = (\<lambda>symbol interval start_str end_str ktype.
         if symbol = ''AAA'' then Inl (RemoteError ''timeout'') else Inr [])\<rparr>"

definition sample_config :: config where
  "sample_config = \<lparr>time_column = ''timestamp'', data_folder = ''data'', binance_freq = ''1h''\<rparr>"

definition source_of :: "string \<Rightarrow> data_source" where
  "source_of name = \<lparr>ds_folder = Some name, ds_type = None, ds_file = Some name\<rparr>"

text \<open>
  A file with the one column \<open>timestamp\<close> holding the given instants as text, the frame
  it is loaded into, and the instants of \<open>n\<close> daily bars from 2017-01-01 on.
\<close>

definition csv_of_instants :: "int list \<Rightarrow> frame" where
  "csv_of_instants ts =
     \<lparr>columns = [''timestamp''], rows = map (\<lambda>t. [''timestamp'' \<mapsto> IsoText t]) ts\<rparr>"

definition frame_of_instants :: "int list \<Rightarrow> frame" where
  "frame_of_instants ts =
     \<lparr>columns = [''timestamp''], rows = map (\<lambda>t. [''timestamp'' \<mapsto> Datetime t]) ts\<rparr>"

definition daily :: "nat \<Rightarrow> int list" where
  "daily n = map (\<lambda>i. epoch_floor + int i * one_day) [0..<n]"

definition csv_time_only :: frame where
  \<comment> \<open>a file whose time column is called \<open>time\<close>, with no column \<open>timestamp\<close>\<close>
  "csv_time_only = \<lparr>columns = [''time''], rows = [[''time'' \<mapsto> IsoText epoch_floor]]\<rparr>"

section \<open>The series merger and the remote series, from the specification\<close>

text \<open>
  Modelled from the spec: the merge that \<^verbatim>\<open>klines_to_df\<close> of \<^verbatim>\<open>common/utils.py\<close> performs;
  the file is not among the sources. The spec's SeriesMerger takes an ordered table and a
  batch of fetched rows: a row of the batch replaces the row of the table with the same
  timestamp, any other row of the batch goes to its place in the order of timestamps, and
  the rows of the table that the batch does not name stay. One row is put into the table
  by \<open>upsert\<close>, a batch row by row. The key of a row is its timestamp.
\<close>

fun upsert :: "('r \<Rightarrow> int) \<Rightarrow> 'r \<Rightarrow> 'r list \<Rightarrow> 'r list" where
  \<comment> \<open>Modelled from the spec: the step of the missing merge of \<^verbatim>\<open>klines_to_df\<close>, one fetched row put into the table\<close>
  "upsert key new [] = [new]"
| "upsert key new (old # table) =
     (if key old < key new then old # upsert key new table
      else if key old = key new then new # table
      else new # old # table)"

definition SeriesMerger :: "('r \<Rightarrow> int) \<Rightarrow> 'r list \<Rightarrow> 'r list \<Rightarrow> 'r list" where
  \<comment> \<open>Modelled from the spec: the missing merge of \<^verbatim>\<open>klines_to_df\<close>, the batch put into the table row by row\<close>
  "SeriesMerger key table batch = fold (upsert key) batch table"

text \<open>
  Modelled from the spec: the invariant of a SeriesTable, timestamps strictly increasing
  and so without duplicates, and the row of a table at a timestamp.
\<close>

definition ordered :: "('r \<Rightarrow> int) \<Rightarrow> 'r list \<Rightarrow> bool" where
  \<comment> \<open>Modelled from the spec: the order of a SeriesTable, which the missing merge is to keep\<close>
  "ordered key rs = sorted_wrt (\<lambda>a b. key a < key b) rs"

definition row_at :: "('r \<Rightarrow> int) \<Rightarrow> 'r list \<Rightarrow> int \<Rightarrow> 'r option" where
  \<comment> \<open>Modelled from the spec: the row of a SeriesTable at a timestamp\<close>
  "row_at key rs t = find (\<lambda>r. key r = t) rs"

text \<open>
  Modelled from the spec: the BarRecord as a row of a frame. Its key is the open timestamp
  in the column \<open>timestamp\<close>, read from the parsed cell or from its text; the spec names
  the columns of a bar. The missing \<^verbatim>\<open>klines_to_df\<close> on frames: the columns of the frame
  and of the bars, and the rows merged by SeriesMerger.
\<close>

definition open_time :: "row \<Rightarrow> int" where
  \<comment> \<open>Modelled from the spec: the open timestamp of a BarRecord, the key of the missing merge\<close>
  "open_time r =
     (case r ''timestamp'' of Some (Datetime t) \<Rightarrow> t | Some (IsoText t) \<Rightarrow> t | _ \<Rightarrow> 0)"

definition bar_columns :: "string list" where
  \<comment> \<open>Modelled from the spec: the fields of a BarRecord, the columns that the missing \<^verbatim>\<open>klines_to_df\<close> gives a frame\<close>
  "bar_columns = [''timestamp'', ''open'', ''high'', ''low'', ''close'', ''volume'']"

definition klines_to_df :: "row list \<Rightarrow> frame \<Rightarrow> frame" where
  \<comment> \<open>Modelled from the spec: the missing \<^verbatim>\<open>klines_to_df\<close> of \<^verbatim>\<open>common/utils.py\<close>\<close>
  "klines_to_df klines df =
     \<lparr>columns = columns df @ filter (\<lambda>c. c \<notin> set (columns df)) bar_columns,
      rows = SeriesMerger open_time (rows df) klines\<rparr>"



text \<open>
  A bar as the client delivers it has a parsed timestamp. A bar that was written to a file
  and loaded again has its cells as text, but for the timestamp, which line 118 parses.
\<close>

definition is_bar :: "row \<Rightarrow> bool" where
  "is_bar r = (case r ''timestamp'' of Some (Datetime t) \<Rightarrow> True | _ \<Rightarrow> False)"

definition reparsed :: "row \<Rightarrow> row" where
  "reparsed r = (render_row r)(''timestamp'' \<mapsto> Datetime (open_time r))"

definition bar_at :: "int \<Rightarrow> row" where
  \<comment> \<open>a bar with its timestamp and no other column\<close>
  "bar_at t = [''timestamp'' \<mapsto> Datetime t]"


section \<open>The fetch loop, case by case\<close>

declare fetch_loop.simps [simp del]

lemma windows_of_append: "windows_of (xs @ ys) = windows_of xs @ windows_of ys"
  by (induction xs rule: windows_of.induct) auto

lemma requests_of_append: "requests_of (xs @ ys) = requests_of xs @ requests_of ys"
  by (induction xs rule: requests_of.induct) auto

lemma writes_of_append: "writes_of (xs @ ys) = writes_of xs @ writes_of ys"
  by (induction xs rule: writes_of.induct) auto

lemma fetch_loop_last:
  "now - s \<le> one_year \<Longrightarrow>
   fetch_loop cl k sy itv st kt now s df =
     ([LogFetching s None, GetHistoricalKlines sy itv st None kt],
      case get_historical_klines cl sy itv st None kt of
        Inl e \<Rightarrow> Inl e | Inr ks \<Rightarrow> Inr (k ks df))"
  by (subst fetch_loop.simps) (simp add: Let_def split: sum.splits)

lemma fetch_loop_fail:
  "one_year < now - s \<Longrightarrow>
   get_historical_klines cl sy itv st (Some (s + one_year)) kt = Inl e \<Longrightarrow>
   fetch_loop cl k sy itv st kt now s df =
     ([LogFetching s (Some (s + one_year)),
       GetHistoricalKlines sy itv st (Some (s + one_year)) kt], Inl e)"
  by (subst fetch_loop.simps) (simp add: Let_def)

lemma fetch_loop_more:
  "one_year < now - s \<Longrightarrow>
   get_historical_klines cl sy itv st (Some (s + one_year)) kt = Inr ks \<Longrightarrow>
   fetch_loop cl k sy itv st kt now s df =
     ([LogFetching s (Some (s + one_year)),
       GetHistoricalKlines sy itv st (Some (s + one_year)) kt]
        @ fst (fetch_loop cl k sy itv st kt now (s + one_year - one_day) (k ks df)),
      snd (fetch_loop cl k sy itv st kt now (s + one_year - one_day) (k ks df)))"
  by (subst fetch_loop.simps) (simp add: Let_def split: prod.splits)

lemma fetch_loop_cases [case_names last fail more]:
  assumes "now - s \<le> one_year \<Longrightarrow> P"
    and "\<And>e. one_year < now - s \<Longrightarrow>
           get_historical_klines cl sy itv st (Some (s + one_year)) kt = Inl e \<Longrightarrow> P"
    and "\<And>ks. one_year < now - s \<Longrightarrow>
           get_historical_klines cl sy itv st (Some (s + one_year)) kt = Inr ks \<Longrightarrow> P"
  shows P
  using assms by (cases "get_historical_klines cl sy itv st (Some (s + one_year)) kt") force+

text \<open>
  Induction along the iterations of the loop: the cursor moves on by 364 days while more
  than a year is left, so the distance to \<open>now\<close> decreases.
\<close>

lemma fetch_loop_induct [case_names last fail more]:
  assumes "\<And>s df. now - s \<le> one_year \<Longrightarrow> P s df"
    and "\<And>s df e. one_year < now - s \<Longrightarrow>
           get_historical_klines cl sy itv st (Some (s + one_year)) kt = Inl e \<Longrightarrow> P s df"
    and "\<And>s df ks. one_year < now - s \<Longrightarrow>
           get_historical_klines cl sy itv st (Some (s + one_year)) kt = Inr ks \<Longrightarrow>
           P (s + one_year - one_day) (k ks df) \<Longrightarrow> P s df"
  shows "P s df"
proof (induction "nat (now - s)" arbitrary: s df rule: less_induct)
  case (less s df)
  show ?case
  proof (cases rule: fetch_loop_cases [where now=now and s=s and cl=cl and sy=sy and itv=itv and st=st and kt=kt])
    case last
    then show ?thesis by (rule assms(1))
  next
    case (fail e)
    then show ?thesis by (rule assms(2))
  next
    case (more ks)
    have "nat (now - (s + one_year - one_day)) < nat (now - s)"
      using more(1) by (simp add: one_year_def one_day_def)
    then have "P (s + one_year - one_day) (k ks df)" by (rule less)
    then show ?thesis by (rule assms(3) [OF more])
  qed
qed

section \<open>The windows of the fetch loop\<close>

lemma windows_head:
  "\<exists>e ws. windows_of (fst (fetch_loop cl k sy itv st kt now s df)) = (s, e) # ws"
  by (cases rule: fetch_loop_cases [where now=now and s=s and cl=cl and sy=sy and itv=itv and st=st and kt=kt])
     (simp_all add: fetch_loop_last fetch_loop_fail fetch_loop_more)

lemma requests_loop:
  "requests_of (fst (fetch_loop cl k sy itv st kt now s df)) =
   map (\<lambda>w. (st, snd w)) (windows_of (fst (fetch_loop cl k sy itv st kt now s df)))"
proof (induction s df rule: fetch_loop_induct [where now=now and cl=cl and sy=sy and itv=itv and st=st and kt=kt and k=k])
  case (last s df)
  then show ?case by (simp add: fetch_loop_last)
next
  case (fail s df e)
  then show ?case by (simp add: fetch_loop_fail)
next
  case (more s df ks)
  then show ?case by (simp add: fetch_loop_more)
qed

lemma writes_loop: "writes_of (fst (fetch_loop cl k sy itv st kt now s df)) = []"
proof (induction s df rule: fetch_loop_induct [where now=now and cl=cl and sy=sy and itv=itv and st=st and kt=kt and k=k])
  case (last s df)
  then show ?case by (simp add: fetch_loop_last)
next
  case (fail s df e)
  then show ?case by (simp add: fetch_loop_fail)
next
  case (more s df ks)
  then show ?case by (simp add: fetch_loop_more)
qed

lemma overlapping_loop:
  "overlapping (windows_of (fst (fetch_loop cl k sy itv st kt now s df)))"
proof (induction s df rule: fetch_loop_induct [where now=now and cl=cl and sy=sy and itv=itv and st=st and kt=kt and k=k])
  case (last s df)
  then show ?case by (simp add: fetch_loop_last)
next
  case (fail s df e)
  then show ?case by (simp add: fetch_loop_fail)
next
  case (more s df ks)
  obtain e ws where
    "windows_of (fst (fetch_loop cl k sy itv st kt now (s + one_year - one_day) (k ks df)))
       = (s + one_year - one_day, e) # ws"
    using windows_head by blast
  with more show ?case by (simp add: fetch_loop_more)
qed

lemma last_open:
  "snd (fetch_loop cl k sy itv st kt now s df) = Inr m \<Longrightarrow>
   snd (last (windows_of (fst (fetch_loop cl k sy itv st kt now s df)))) = None \<and>
   now - fst (last (windows_of (fst (fetch_loop cl k sy itv st kt now s df)))) \<le> one_year"
proof (induction s df rule: fetch_loop_induct [where now=now and cl=cl and sy=sy and itv=itv and st=st and kt=kt and k=k])
  case (last s df)
  then show ?case by (simp add: fetch_loop_last)
next
  case (fail s df e)
  then show ?case by (simp add: fetch_loop_fail)
next
  case (more s df ks)
  obtain e ws where
    "windows_of (fst (fetch_loop cl k sy itv st kt now (s + one_year - one_day) (k ks df)))
       = (s + one_year - one_day, e) # ws"
    using windows_head by blast
  with more show ?case by (simp add: fetch_loop_more windows_of_append)
qed

lemma covered:
  "snd (fetch_loop cl k sy itv st kt now s df) = Inr m \<Longrightarrow> s \<le> t \<Longrightarrow>
   \<exists>w \<in> set (windows_of (fst (fetch_loop cl k sy itv st kt now s df))). covers w t"
proof (induction s df rule: fetch_loop_induct [where now=now and cl=cl and sy=sy and itv=itv and st=st and kt=kt and k=k])
  case (last s df)
  then show ?case by (simp add: fetch_loop_last)
next
  case (fail s df e)
  then show ?case by (simp add: fetch_loop_fail)
next
  case (more s df ks)
  let ?rec = "fetch_loop cl k sy itv st kt now (s + one_year - one_day) (k ks df)"
  have eq: "fetch_loop cl k sy itv st kt now s df =
     ([LogFetching s (Some (s + one_year)),
       GetHistoricalKlines sy itv st (Some (s + one_year)) kt] @ fst ?rec, snd ?rec)"
    using more(1,2) by (rule fetch_loop_more)
  have ws: "windows_of (fst (fetch_loop cl k sy itv st kt now s df)) =
     (s, Some (s + one_year)) # windows_of (fst ?rec)"
    by (simp only: eq fst_conv windows_of_append windows_of.simps append_Cons append_Nil)
  have r: "snd ?rec = Inr m"
    using more(4) by (simp only: eq snd_conv)
  show ?case
  proof (cases "s + one_year - one_day \<le> t")
    case True
    with more(3) r obtain w where "w \<in> set (windows_of (fst ?rec))" "covers w t"
      by blast
    then show ?thesis unfolding ws by auto
  next
    case False
    then have "covers (s, Some (s + one_year)) t"
      using more(5) by (simp add: one_day_def)
    then show ?thesis unfolding ws by simp
  qed
qed

lemma windows_bound:
  "length (windows_of (fst (fetch_loop cl k sy itv st kt now s df)))
     \<le> 1 + nat ((now - s) div (one_year - one_day))"
proof (induction s df rule: fetch_loop_induct [where now=now and cl=cl and sy=sy and itv=itv and st=st and kt=kt and k=k])
  case (last s df)
  then show ?case by (simp add: fetch_loop_last)
next
  case (fail s df e)
  then show ?case by (simp add: fetch_loop_fail)
next
  case (more s df ks)
  have "1 + nat ((now - (s + one_year - one_day)) div (one_year - one_day))
          \<le> nat ((now - s) div (one_year - one_day))"
    using more(1) unfolding one_year_def one_day_def by simp
  with more(3) show ?case using more(1,2) by (simp add: fetch_loop_more)
qed

lemma cursor_advances:
  "sorted_wrt (<) (map fst (windows_of (fst (fetch_loop cl k sy itv st kt now s df)))) \<and>
   (\<forall>a \<in> set (map fst (windows_of (fst (fetch_loop cl k sy itv st kt now s df)))).
      s \<le> a \<and> (a = s \<or> a < now))"
proof (induction s df rule: fetch_loop_induct [where now=now and cl=cl and sy=sy and itv=itv and st=st and kt=kt and k=k])
  case (last s df)
  then show ?case by (simp add: fetch_loop_last)
next
  case (fail s df e)
  then show ?case by (simp add: fetch_loop_fail)
next
  case (more s df ks)
  have "s < s + one_year - one_day" "s + one_year - one_day < now"
    using more(1) by (simp_all add: one_year_def one_day_def)
  with more show ?case by (fastforce simp add: fetch_loop_more)
qed

lemma quiet_run:
  "fetch_loop quiet_client keep_frame ''BTCUSDT'' ''1h'' epoch_floor SPOT
     (epoch_floor + 400 * one_day) epoch_floor DataFrame =
   ([LogFetching epoch_floor (Some (epoch_floor + one_year)),
     GetHistoricalKlines ''BTCUSDT'' ''1h'' epoch_floor (Some (epoch_floor + one_year)) SPOT,
     LogFetching (epoch_floor + 364 * one_day) None,
     GetHistoricalKlines ''BTCUSDT'' ''1h'' epoch_floor None SPOT], Inr DataFrame)"
  by (simp add: fetch_loop.simps quiet_client_def keep_frame_def one_day_def one_year_def
        epoch_floor_def Let_def)

text \<open>
  C1. Every call of the remote range fetch should ask for the range of its own window:
  the window's start and the window's end, or the open end for the final window. The loop
  passes \<^verbatim>\<open>start_str\<close>, the start of the whole download, in every call, while the line it
  logs just before names \<^verbatim>\<open>start_point_dt\<close>: the requests are the windows with their
  starts replaced by \<^verbatim>\<open>start_str\<close>. Starting on 2017-01-01 with the clock 400 days
  later, the second window starts on 2017-12-31 and its request starts on 2017-01-01.
\<close>

theorem C1_second_request_starts_at_start_str:
  "requests_of (fst (fetch_loop cl k sy itv st kt now s df)) =
     map (\<lambda>w. (st, snd w)) (windows_of (fst (fetch_loop cl k sy itv st kt now s df)))
   \<and> windows_of (trace (snd (get_binance_historical_klines quiet_client keep_frame
      (epoch_floor + 400 * one_day) ''BTCUSDT'' ''1h'' epoch_floor SPOT DataFrame
      ''BTCUSDT.csv'' empty_world))) =
     [(epoch_floor, Some (epoch_floor + one_year)), (epoch_floor + 364 * one_day, None)]
   \<and> requests_of (trace (snd (get_binance_historical_klines quiet_client keep_frame
      (epoch_floor + 400 * one_day) ''BTCUSDT'' ''1h'' epoch_floor SPOT DataFrame
      ''BTCUSDT.csv'' empty_world))) =
     [(epoch_floor, Some (epoch_floor + one_year)), (epoch_floor, None)]"
  using requests_loop [of cl k sy itv st kt now s df]
  by (simp add: get_binance_historical_klines_def quiet_run to_csv_def empty_world_def Let_def)

text \<open>
  C2, as stated: adjacent windows meet, the end of one being the start of the next. On the
  same run the first window ends on 2018-01-01 and the second starts on 2017-12-31.
\<close>

theorem C2_windows_not_contiguous:
  "\<not> contiguous (windows_of (fst (fetch_loop quiet_client keep_frame ''BTCUSDT'' ''1h''
       epoch_floor SPOT (epoch_floor + 400 * one_day) epoch_floor DataFrame)))"
  unfolding quiet_run by (simp add: one_day_def one_year_def)

text \<open>
  C2, amended. The windows of the loop start at the start instant; every window but the
  last spans exactly one year, and the next window starts one day before its end, so
  adjacent windows overlap by one day and leave no gap. When no remote call raises, the
  last window is open-ended and starts at most a year before \<open>now\<close>, and every instant
  from the start on lies in some window.
\<close>

theorem C2_windows_overlap_by_one_day:
  fixes cl :: "'k client" and k :: "'k list \<Rightarrow> frame \<Rightarrow> frame" and sy itv :: string
    and st now s :: int and kt :: klines_type and df :: frame
    and ws :: "(int \<times> int option) list"
  defines "ws \<equiv> windows_of (fst (fetch_loop cl k sy itv st kt now s df))"
  shows "ws \<noteq> [] \<and> fst (hd ws) = s \<and> overlapping ws \<and>
    (\<forall>m. snd (fetch_loop cl k sy itv st kt now s df) = Inr m \<longrightarrow>
       snd (last ws) = None \<and> now - fst (last ws) \<le> one_year \<and>
       (\<forall>t. s \<le> t \<longrightarrow> (\<exists>w \<in> set ws. covers w t)))"
proof -
  obtain e ws' where "ws = (s, e) # ws'"
    unfolding ws_def using windows_head by blast
  then have "ws \<noteq> []" "fst (hd ws) = s" by simp_all
  moreover have "overlapping ws"
    unfolding ws_def by (rule overlapping_loop)
  moreover have "snd (last ws) = None \<and> now - fst (last ws) \<le> one_year"
    if "snd (fetch_loop cl k sy itv st kt now s df) = Inr m" for m
    unfolding ws_def using that by (rule last_open)
  moreover have "\<exists>w \<in> set ws. covers w t"
    if "snd (fetch_loop cl k sy itv st kt now s df) = Inr m" "s \<le> t" for m t
    unfolding ws_def using that by (rule covered)
  ultimately show ?thesis by blast
qed

theorem C2_windows_overlap_witness:
  "snd (fetch_loop quiet_client keep_frame ''BTCUSDT'' ''1h'' epoch_floor SPOT
      (epoch_floor + 400 * one_day) epoch_floor DataFrame) = Inr DataFrame \<and>
   overlapping [(epoch_floor, Some (epoch_floor + one_year)), (epoch_floor + 364 * one_day, None)] \<and>
   (\<exists>w \<in> set [(epoch_floor, Some (epoch_floor + one_year)), (epoch_floor + 364 * one_day, None)].
      covers w (epoch_floor + 399 * one_day))"
  using C2_windows_overlap_by_one_day [where cl=quiet_client and k=keep_frame and sy="''BTCUSDT''"
      and itv="''1h''" and st=epoch_floor and kt=SPOT and now="epoch_floor + 400 * one_day"
      and s=epoch_floor and df=DataFrame]
  unfolding quiet_run by (simp add: one_day_def one_year_def)

lemma windows_count:
  "snd (fetch_loop cl k sy itv st kt now s df) = Inr m \<Longrightarrow>
   length (windows_of (fst (fetch_loop cl k sy itv st kt now s df)))
     = 1 + nat ((now - s - one_day - 1) div (one_year - one_day))"
proof (induction s df rule: fetch_loop_induct [where now=now and cl=cl and sy=sy and itv=itv and st=st and kt=kt and k=k])
  case (last s df)
  then have "(now - s - one_day - 1) div (one_year - one_day) \<le> 0"
    unfolding one_year_def one_day_def by simp
  with last show ?case by (simp add: fetch_loop_last)
next
  case (fail s df e)
  then show ?case by (simp add: fetch_loop_fail)
next
  case (more s df ks)
  have "1 + nat ((now - (s + one_year - one_day) - one_day - 1) div (one_year - one_day))
          = nat ((now - s - one_day - 1) div (one_year - one_day))"
    using more(1) unfolding one_year_def one_day_def by simp
  moreover have "snd (fetch_loop cl k sy itv st kt now (s + one_year - one_day) (k ks df)) = Inr m"
    using more(4) by (simp add: fetch_loop_more [OF more(1,2)])
  ultimately show ?case
    using more(3) by (simp add: fetch_loop_more [OF more(1,2)])
qed

lemma windows_step:
  "one_year < now - s \<Longrightarrow>
   get_historical_klines cl sy itv st (Some (s + one_year)) kt = Inr ks \<Longrightarrow>
   windows_of (fst (fetch_loop cl k sy itv st kt now s df)) =
     (s, Some (s + one_year)) #
       windows_of (fst (fetch_loop cl k sy itv st kt now (s + one_year - one_day) (k ks df)))"
  by (simp add: fetch_loop_more)

lemma windows_first_bounded:
  "one_year < now - s \<Longrightarrow>
   hd (windows_of (fst (fetch_loop cl k sy itv st kt now s df))) = (s, Some (s + one_year))"
  by (cases "get_historical_klines cl sy itv st (Some (s + one_year)) kt")
     (simp_all add: fetch_loop_fail fetch_loop_more)

text \<open>
  C8. The loop is a total function, its recursion following the cursor, which moves on by
  364 days in every iteration that is not the last. For every start and every \<open>now\<close> it
  emits at most \<open>1 + (now - start) div 364 days\<close> windows. When \<open>now - start\<close> is at
  most a year (also when the start is later than \<open>now\<close>) it emits the one open-ended
  window. When more than a year is left, the first window is the bounded window of one
  year from the start, and if its call returns, the loop goes on from the cursor 364 days
  later, which is after the start and before \<open>now\<close>: the windows are that first window
  followed by the windows of the loop from the new cursor. The window starts increase
  strictly, each next one 364 days after the one before. When no remote call raises, the
  number of windows is \<open>1 + (now - start - 1 day - 1) div 364 days\<close>, a negative
  quotient counting as 0, and the last window is open.
\<close>

theorem C8_loop_emits_finitely_many_windows:
  fixes cl :: "'k client" and k :: "'k list \<Rightarrow> frame \<Rightarrow> frame" and sy itv :: string
    and st now s :: int and kt :: klines_type and df :: frame
    and ws :: "(int \<times> int option) list"
  defines "ws \<equiv> windows_of (fst (fetch_loop cl k sy itv st kt now s df))"
  shows "(now - s \<le> one_year \<longrightarrow> ws = [(s, None)]) \<and>
    length ws \<le> 1 + nat ((now - s) div (one_year - one_day)) \<and>
    sorted_wrt (<) (map fst ws) \<and>
    (\<forall>a \<in> set (map fst ws). s \<le> a \<and> (a = s \<or> a < now)) \<and>
    (one_year < now - s \<longrightarrow> hd ws = (s, Some (s + one_year))) \<and>
    (\<forall>ks. one_year < now - s \<and>
        get_historical_klines cl sy itv st (Some (s + one_year)) kt = Inr ks \<longrightarrow>
        s < s + one_year - one_day \<and> s + one_year - one_day < now \<and>
        ws = (s, Some (s + one_year)) #
          windows_of (fst (fetch_loop cl k sy itv st kt now (s + one_year - one_day) (k ks df)))) \<and>
    overlapping ws \<and>
    (\<forall>m. snd (fetch_loop cl k sy itv st kt now s df) = Inr m \<longrightarrow>
        length ws = 1 + nat ((now - s - one_day - 1) div (one_year - one_day)) \<and>
        snd (last ws) = None)"
proof -
  have a: "now - s \<le> one_year \<longrightarrow> ws = [(s, None)]"
    unfolding ws_def by (simp add: fetch_loop_last)
  have b: "length ws \<le> 1 + nat ((now - s) div (one_year - one_day))"
    unfolding ws_def by (rule windows_bound)
  have c: "sorted_wrt (<) (map fst ws) \<and>
      (\<forall>a \<in> set (map fst ws). s \<le> a \<and> (a = s \<or> a < now))"
    unfolding ws_def by (rule cursor_advances)
  have d: "hd ws = (s, Some (s + one_year))" if "one_year < now - s"
    unfolding ws_def using that by (rule windows_first_bounded)
  have e: "s < s + one_year - one_day \<and> s + one_year - one_day < now \<and>
      ws = (s, Some (s + one_year)) #
        windows_of (fst (fetch_loop cl k sy itv st kt now (s + one_year - one_day) (k ks df)))"
    if "one_year < now - s"
      "get_historical_klines cl sy itv st (Some (s + one_year)) kt = Inr ks" for ks
    unfolding ws_def using that windows_step [OF that, of k df]
    by (simp add: one_year_def one_day_def)
  have f: "overlapping ws"
    unfolding ws_def by (rule overlapping_loop)
  have g: "length ws = 1 + nat ((now - s - one_day - 1) div (one_year - one_day)) \<and>
      snd (last ws) = None"
    if "snd (fetch_loop cl k sy itv st kt now s df) = Inr m" for m
    unfolding ws_def using windows_count [OF that] last_open [OF that] by simp
  from a b c d e f g show ?thesis by blast
qed

theorem C8_start_after_now_witness:
  "epoch_floor - (epoch_floor + 10 * one_day) \<le> one_year \<and>
   windows_of (fst (fetch_loop quiet_client keep_frame ''BTCUSDT'' ''1h''
      (epoch_floor + 10 * one_day) SPOT epoch_floor (epoch_floor + 10 * one_day) DataFrame))
     = [(epoch_floor + 10 * one_day, None)] \<and>
   one_year < epoch_floor + 400 * one_day - epoch_floor \<and>
   get_historical_klines quiet_client ''BTCUSDT'' ''1h'' epoch_floor (Some (epoch_floor + one_year)) SPOT
     = Inr [] \<and>
   snd (fetch_loop quiet_client keep_frame ''BTCUSDT'' ''1h'' epoch_floor SPOT
      (epoch_floor + 400 * one_day) epoch_floor DataFrame) = Inr DataFrame \<and>
   hd (windows_of (fst (fetch_loop quiet_client keep_frame ''BTCUSDT'' ''1h'' epoch_floor SPOT
      (epoch_floor + 400 * one_day) epoch_floor DataFrame))) = (epoch_floor, Some (epoch_floor + one_year)) \<and>
   length (windows_of (fst (fetch_loop quiet_client keep_frame ''BTCUSDT'' ''1h'' epoch_floor SPOT
      (epoch_floor + 400 * one_day) epoch_floor DataFrame))) = 2"
proof -
  have h1: "epoch_floor - (epoch_floor + 10 * one_day) \<le> one_year"
    by (simp add: one_day_def one_year_def)
  have h2: "one_year < epoch_floor + 400 * one_day - epoch_floor"
    by (simp add: one_day_def one_year_def)
  have h3: "get_historical_klines quiet_client ''BTCUSDT'' ''1h'' epoch_floor
      (Some (epoch_floor + one_year)) SPOT = Inr []"
    by (simp add: quiet_client_def)
  have h4: "snd (fetch_loop quiet_client keep_frame ''BTCUSDT'' ''1h'' epoch_floor SPOT
      (epoch_floor + 400 * one_day) epoch_floor DataFrame) = Inr DataFrame"
    by (simp add: quiet_run)
  have n: "1 + nat ((epoch_floor + 400 * one_day - epoch_floor - one_day - 1) div (one_year - one_day)) = 2"
    by (simp add: one_day_def one_year_def)
  from C8_loop_emits_finitely_many_windows [where cl=quiet_client and k=keep_frame
      and sy="''BTCUSDT''" and itv="''1h''" and st="epoch_floor + 10 * one_day" and kt=SPOT
      and now=epoch_floor and s="epoch_floor + 10 * one_day" and df=DataFrame] h1
  have w1: "windows_of (fst (fetch_loop quiet_client keep_frame ''BTCUSDT'' ''1h''
      (epoch_floor + 10 * one_day) SPOT epoch_floor (epoch_floor + 10 * one_day) DataFrame))
     = [(epoch_floor + 10 * one_day, None)]" by blast
  from C8_loop_emits_finitely_many_windows [where cl=quiet_client and k=keep_frame
      and sy="''BTCUSDT''" and itv="''1h''" and st=epoch_floor and kt=SPOT
      and now="epoch_floor + 400 * one_day" and s=epoch_floor and df=DataFrame] h2 h4
  have w2: "hd (windows_of (fst (fetch_loop quiet_client keep_frame ''BTCUSDT'' ''1h'' epoch_floor SPOT
      (epoch_floor + 400 * one_day) epoch_floor DataFrame))) = (epoch_floor, Some (epoch_floor + one_year))"
    and w3: "length (windows_of (fst (fetch_loop quiet_client keep_frame ''BTCUSDT'' ''1h'' epoch_floor SPOT
      (epoch_floor + 400 * one_day) epoch_floor DataFrame))) =
        1 + nat ((epoch_floor + 400 * one_day - epoch_floor - one_day - 1) div (one_year - one_day))"
    by blast+
  from h1 w1 h2 h3 h4 w2 w3 n show ?thesis by simp
qed

section \<open>Trimming and writing\<close>

lemma run_completes:
  assumes "snd (fetch_loop cl k sy itv st kt now st df) = Inr merged"
  shows "get_binance_historical_klines cl k now sy itv st kt df f w =
     (None, \<lparr>files = (files w)(f \<mapsto> \<lparr>columns = columns merged, rows = butlast (map render_row (rows merged))\<rparr>),
             trace = trace w @ fst (fetch_loop cl k sy itv st kt now st df)
                @ [ToCsv f \<lparr>columns = columns merged, rows = butlast (map render_row (rows merged))\<rparr>]\<rparr>)"
  using assms
  by (cases "fetch_loop cl k sy itv st kt now st df")
     (simp add: get_binance_historical_klines_def to_csv_def iloc_drop_last_def Let_def map_butlast)

lemma run_fails:
  assumes "snd (fetch_loop cl k sy itv st kt now st df) = Inl e"
  shows "get_binance_historical_klines cl k now sy itv st kt df f w =
     (Some e, w\<lparr>trace := trace w @ fst (fetch_loop cl k sy itv st kt now st df)\<rparr>)"
  using assms
  by (cases "fetch_loop cl k sy itv st kt now st df")
     (simp add: get_binance_historical_klines_def)

lemma one_bar_run:
  "fetch_loop one_bar_client append_rows ''BTCUSDT'' ''1h'' epoch_floor SPOT
     (epoch_floor + 10 * one_day) epoch_floor DataFrame =
   ([LogFetching epoch_floor None, GetHistoricalKlines ''BTCUSDT'' ''1h'' epoch_floor None SPOT],
    Inr \<lparr>columns = [], rows = [[''timestamp'' \<mapsto> Datetime epoch_floor]]\<rparr>)"
  by (simp add: fetch_loop_last one_bar_client_def append_rows_def DataFrame_def one_day_def one_year_def)

text \<open>
  C4. When the loop completes with a merged frame, \<^verbatim>\<open>get_binance_historical_klines\<close>
  returns normally, the file holds the merged frame as written without its final row, for
  every merged frame (with a single row, and with no row, the file has no rows), this
  write is the only one of the call and its last effect, after the loop.
\<close>

theorem C4_last_row_trimmed_and_written_once:
  assumes "snd (fetch_loop cl k sy itv st kt now st df) = Inr merged"
  shows "fst (get_binance_historical_klines cl k now sy itv st kt df f w) = None \<and>
    files (snd (get_binance_historical_klines cl k now sy itv st kt df f w)) =
      (files w)(f \<mapsto> \<lparr>columns = columns merged, rows = butlast (map render_row (rows merged))\<rparr>) \<and>
    writes_of (trace (snd (get_binance_historical_klines cl k now sy itv st kt df f w))) =
      writes_of (trace w) @ [(f, \<lparr>columns = columns merged, rows = butlast (map render_row (rows merged))\<rparr>)] \<and>
    last (trace (snd (get_binance_historical_klines cl k now sy itv st kt df f w))) =
      ToCsv f \<lparr>columns = columns merged, rows = butlast (map render_row (rows merged))\<rparr>"
  by (simp add: run_completes [OF assms] writes_of_append writes_loop)

theorem C4_single_row_witness:
  "snd (fetch_loop one_bar_client append_rows ''BTCUSDT'' ''1h'' epoch_floor SPOT
     (epoch_floor + 10 * one_day) epoch_floor DataFrame) =
     Inr \<lparr>columns = [], rows = [[''timestamp'' \<mapsto> Datetime epoch_floor]]\<rparr> \<and>
   files (snd (get_binance_historical_klines one_bar_client append_rows (epoch_floor + 10 * one_day)
     ''BTCUSDT'' ''1h'' epoch_floor SPOT DataFrame ''BTCUSDT.csv'' empty_world)) ''BTCUSDT.csv''
     = Some \<lparr>columns = [], rows = []\<rparr>"
  using C4_last_row_trimmed_and_written_once [of one_bar_client append_rows "''BTCUSDT''" "''1h''" epoch_floor SPOT
     "epoch_floor + 10 * one_day" DataFrame "\<lparr>columns = [], rows = [[''timestamp'' \<mapsto> Datetime epoch_floor]]\<rparr>"
     "''BTCUSDT.csv''" empty_world]
  unfolding one_bar_run by simp

section \<open>Errors in the loop over the data sources\<close>

lemma download_job_failure_keeps_files:
  assumes "download_job cfg cl k ds now w = (Some e, w')"
  shows "files w' = files w \<and> writes_of (trace w') = writes_of (trace w)"
proof -
  have g: "files w2 = files w1 \<and> writes_of (trace w2) = writes_of (trace w1)"
    if "get_binance_historical_klines cl k now sy itv st kt df f w1 = (Some e, w2)"
    for sy itv st kt df f w1 w2
  proof (cases "snd (fetch_loop cl k sy itv st kt now st df)")
    case (Inl e')
    from that show ?thesis
      unfolding run_fails [OF Inl] by (auto simp: writes_of_append writes_loop)
  next
    case (Inr m)
    from that show ?thesis
      unfolding run_completes [OF Inr] by simp
  qed
  from assms show ?thesis
    unfolding download_job_def log_event_def
    by (auto simp: Let_def writes_of_append split: option.splits if_splits sum.splits prod.splits
          dest!: g)
qed

lemma main_loop_append:
  "main_loop cfg cl k pre w = (None, w1) \<Longrightarrow> main_loop cfg cl k (pre @ rest) w = main_loop cfg cl k rest w1"
proof (induction pre arbitrary: w)
  case Nil
  then show ?case by simp
next
  case (Cons j pre)
  obtain ds now where j: "j = (ds, now)" by (cases j)
  obtain r w' where d: "download_job cfg cl k ds now w = (r, w')"
    by (cases "download_job cfg cl k ds now w")
  show ?case
  proof (cases r)
    case None
    with Cons j d show ?thesis by simp
  next
    case (Some e)
    with Cons.prems j d show ?thesis by simp
  qed
qed

lemma flaky_AAA:
  "download_job sample_config flaky_client keep_frame (source_of ''AAA'') (epoch_floor + 10 * one_day) empty_world =
     (Some (RemoteError ''timeout''),
      \<lparr>files = Map.empty,
       trace = [Mkdir ''data/AAA'', GetKlines ''AAA'' ''1h'' 5, LogFetching epoch_floor None,
                GetHistoricalKlines ''AAA'' ''1h'' epoch_floor None SPOT]\<rparr>)"
  by (simp add: download_job_def sample_config_def flaky_client_def source_of_def log_event_def
        empty_world_def get_binance_historical_klines_def fetch_loop_last one_day_def one_year_def)

lemma flaky_BBB:
  "download_job sample_config flaky_client keep_frame (source_of ''BBB'') (epoch_floor + 10 * one_day) empty_world =
     (None,
      \<lparr>files = [''BBB.csv'' \<mapsto> \<lparr>columns = [], rows = []\<rparr>],
       trace = [Mkdir ''data/BBB'', GetKlines ''BBB'' ''1h'' 5, LogFetching epoch_floor None,
                GetHistoricalKlines ''BBB'' ''1h'' epoch_floor None SPOT,
                ToCsv ''BBB.csv'' \<lparr>columns = [], rows = []\<rparr>]\<rparr>)"
  by (simp add: download_job_def sample_config_def flaky_client_def source_of_def log_event_def
        empty_world_def get_binance_historical_klines_def fetch_loop_last one_day_def one_year_def
        keep_frame_def DataFrame_def to_csv_def iloc_drop_last_def Let_def)

text \<open>
  C5, as stated: an error of the remote source aborts only the job at hand, and the loop
  goes on with the remaining jobs. With two data sources, the range fetch raising for the
  first one, \<^verbatim>\<open>main\<close> ends with that error: no call is made for the second data source
  and its file is not written, though run alone it succeeds and writes its file.
\<close>

theorem C5_error_ends_the_loop:
  "fst (main_loop sample_config flaky_client keep_frame
      [(source_of ''AAA'', epoch_floor + 10 * one_day), (source_of ''BBB'', epoch_floor + 10 * one_day)]
      empty_world) = Some (RemoteError ''timeout'') \<and>
   files (snd (main_loop sample_config flaky_client keep_frame
      [(source_of ''AAA'', epoch_floor + 10 * one_day), (source_of ''BBB'', epoch_floor + 10 * one_day)]
      empty_world)) ''BBB.csv'' = None \<and>
   GetKlines ''BBB'' ''1h'' 5 \<notin> set (trace (snd (main_loop sample_config flaky_client keep_frame
      [(source_of ''AAA'', epoch_floor + 10 * one_day), (source_of ''BBB'', epoch_floor + 10 * one_day)]
      empty_world))) \<and>
   fst (main_loop sample_config flaky_client keep_frame [(source_of ''BBB'', epoch_floor + 10 * one_day)]
      empty_world) = None \<and>
   files (snd (main_loop sample_config flaky_client keep_frame [(source_of ''BBB'', epoch_floor + 10 * one_day)]
      empty_world)) ''BBB.csv'' = Some \<lparr>columns = [], rows = []\<rparr>"
  by (simp add: flaky_AAA flaky_BBB)

text \<open>
  C5, amended. An error raised while a job is processed, an error of the remote source
  among them, leaves \<^verbatim>\<open>main\<close>: it aborts that job and every job after it. No file is
  written for the failing job, so no partial file, and the files written by the jobs
  before it stay as they are.
\<close>

theorem C5_error_aborts_job_and_rest:
  assumes "main_loop cfg cl k pre w = (None, w1)"
    and "download_job cfg cl k ds now w1 = (Some e, w2)"
  shows "main_loop cfg cl k (pre @ (ds, now) # rest) w = (Some e, w2) \<and>
    files w2 = files w1 \<and> writes_of (trace w2) = writes_of (trace w1)"
  using main_loop_append [OF assms(1), of "(ds, now) # rest"] assms(2)
    download_job_failure_keeps_files [OF assms(2)]
  by simp

theorem C5_error_aborts_witness:
  "main_loop sample_config flaky_client keep_frame [] empty_world = (None, empty_world) \<and>
   main_loop sample_config flaky_client keep_frame
      [(source_of ''AAA'', epoch_floor + 10 * one_day), (source_of ''BBB'', epoch_floor + 10 * one_day)]
      empty_world =
     (Some (RemoteError ''timeout''),
      \<lparr>files = Map.empty,
       trace = [Mkdir ''data/AAA'', GetKlines ''AAA'' ''1h'' 5, LogFetching epoch_floor None,
                GetHistoricalKlines ''AAA'' ''1h'' epoch_floor None SPOT]\<rparr>)"
  using C5_error_aborts_job_and_rest [of sample_config flaky_client keep_frame "[]" empty_world empty_world "source_of ''AAA''"
      "epoch_floor + 10 * one_day" "RemoteError ''timeout''"
      "\<lparr>files = Map.empty,
       trace = [Mkdir ''data/AAA'', GetKlines ''AAA'' ''1h'' 5, LogFetching epoch_floor None,
                GetHistoricalKlines ''AAA'' ''1h'' epoch_floor None SPOT]\<rparr>"
      "[(source_of ''BBB'', epoch_floor + 10 * one_day)]"]
  by (simp add: flaky_AAA)

section \<open>The resume point\<close>

lemma to_datetime_length: "to_datetime cs = Inr ds \<Longrightarrow> length ds = length cs"
  by (induction cs arbitrary: ds) (auto split: sum.splits)

lemma to_datetime_iso: "to_datetime (map (\<lambda>t. Some (IsoText t)) ts) = Inr (map (\<lambda>t. Some (Datetime t)) ts)"
  by (induction ts) auto

lemma load_instants: "load_existing ''timestamp'' (csv_of_instants ts) = Inr (frame_of_instants ts)"
  by (simp add: load_existing_def getitem_def csv_of_instants_def frame_of_instants_def
        comp_def to_datetime_iso setitem_def zip_map_map zip_same_conv_map)

lemma getitem_instants: "getitem (frame_of_instants ts) ''timestamp'' = Inr (map (\<lambda>t. Some (Datetime t)) ts)"
  by (simp add: getitem_def frame_of_instants_def comp_def)

lemma iloc_minus5: "5 \<le> length xs \<Longrightarrow> iloc xs (- 5) = Inr (xs ! (length xs - 5))"
  by (simp add: iloc_def)

lemma iloc_minus5_short: "length xs < 5 \<Longrightarrow> iloc xs (- 5) = Inl IndexError"
  by (simp add: iloc_def)

text \<open>
  C3. Without a file the resume point is the epoch floor, 2017-01-01. With a file that
  loads, the resume point is the cell of the column \<open>timestamp\<close> in the fifth row from
  the end; for a table of 100 rows \<open>t1 .. t100\<close> this is \<open>t96\<close>, position 95 counting
  from 0, which differs from \<open>t100\<close> and from \<open>t1\<close> when the timestamps are distinct.
\<close>

theorem C3_resume_point_fifth_from_last:
  "resume_point tc None = Inr (DataFrame, Some (Datetime epoch_floor)) \<and>
   (load_existing tc csv = Inr df \<and> getitem df ''timestamp'' = Inr series \<and> 5 \<le> length series \<longrightarrow>
      resume_point tc (Some csv) = Inr (df, series ! (length series - 5))) \<and>
   (load_existing tc csv = Inr df \<and> getitem df ''timestamp'' = Inr series \<and> length series = 100 \<longrightarrow>
      resume_point tc (Some csv) = Inr (df, series ! 95) \<and>
      (distinct series \<longrightarrow> series ! 95 \<noteq> series ! 99 \<and> series ! 95 \<noteq> series ! 0))"
  by (auto simp: oldest_point_of_def iloc_minus5 nth_eq_iff_index_eq)

theorem C3_hundred_rows_witness:
  "load_existing ''timestamp'' (csv_of_instants (daily 100)) = Inr (frame_of_instants (daily 100)) \<and>
   length (daily 100) = 100 \<and>
   resume_point ''timestamp'' (Some (csv_of_instants (daily 100))) =
     Inr (frame_of_instants (daily 100), Some (Datetime (epoch_floor + 95 * one_day)))"
  using C3_resume_point_fifth_from_last [of "''timestamp''" "csv_of_instants (daily 100)" "frame_of_instants (daily 100)"
     "map (\<lambda>t. Some (Datetime t)) (daily 100)"]
  by (simp add: load_instants getitem_instants) (simp add: daily_def)

text \<open>
  C9. A file that loads with fewer than five rows makes the positional access of line 121
  raise \<open>IndexError\<close>: the resume point is neither the last row nor the epoch floor, and
  the job of that data source fails with this error without writing a file.
\<close>

theorem C9_short_table_raises_IndexError:
  assumes "load_existing tc csv = Inr df" and "getitem df ''timestamp'' = Inr series"
    and "length series < 5"
  shows "resume_point tc (Some csv) = Inl IndexError \<and>
    (ds_folder ds = Some quote \<and> quote \<noteq> [] \<and> ds_file ds = Some f \<and>
     get_klines cl quote (binance_freq cfg) 5 = Inr (x # xs) \<and> time_column cfg = tc \<and>
     files w (f @ ''.csv'') = Some csv \<longrightarrow>
       fst (download_job cfg cl k ds now w) = Some IndexError \<and>
       files (snd (download_job cfg cl k ds now w)) = files w \<and>
       writes_of (trace (snd (download_job cfg cl k ds now w))) = writes_of (trace w))"
  using assms
  by (auto simp: oldest_point_of_def iloc_minus5_short download_job_def log_event_def Let_def
        writes_of_append)

theorem C9_four_rows_witness:
  "load_existing ''timestamp'' (csv_of_instants (daily 4)) = Inr (frame_of_instants (daily 4)) \<and>
   length (daily 4) < 5 \<and>
   resume_point ''timestamp'' (Some (csv_of_instants (daily 4))) = Inl IndexError \<and>
   fst (download_job sample_config quiet_client keep_frame (source_of ''BTCUSDT'') (epoch_floor + 10 * one_day)
     \<lparr>files = [''BTCUSDT.csv'' \<mapsto> csv_of_instants (daily 4)], trace = []\<rparr>) = Some IndexError"
  using C9_short_table_raises_IndexError [of "''timestamp''" "csv_of_instants (daily 4)" "frame_of_instants (daily 4)"
     "map (\<lambda>t. Some (Datetime t)) (daily 4)" "source_of ''BTCUSDT''" "''BTCUSDT''" "''BTCUSDT''"
     quiet_client sample_config "()" "[]"
     "\<lparr>files = [''BTCUSDT.csv'' \<mapsto> csv_of_instants (daily 4)], trace = []\<rparr>" keep_frame
     "epoch_floor + 10 * one_day"]
  by (simp add: load_instants getitem_instants daily_def source_of_def quiet_client_def sample_config_def)

lemma setitem_other_cells:
  "length rs = length ps \<Longrightarrow> name \<noteq> tc \<Longrightarrow>
   map (\<lambda>r. r name) (map (\<lambda>(r, v). r(tc := v)) (zip rs ps)) = map (\<lambda>r. r name) rs"
  by (induction rs ps rule: list_induct2) auto

lemma load_existing_other_column:
  assumes "load_existing tc csv = Inr df" and "name \<noteq> tc"
  shows "getitem df name = getitem csv name"
proof -
  from assms(1) obtain series parsed where
    s: "getitem csv tc = Inr series" and p: "to_datetime series = Inr parsed"
    and df: "df = setitem csv tc parsed"
    by (auto simp: load_existing_def split: sum.splits)
  from s have tc: "tc \<in> set (columns csv)" and "series = map (\<lambda>r. r tc) (rows csv)"
    by (auto simp: getitem_def split: if_splits)
  with p have len: "length parsed = length (rows csv)"
    by (simp add: to_datetime_length)
  have "map (\<lambda>r. r name) (map (\<lambda>(r, v). r(tc := v)) (zip (rows csv) parsed))
      = map (\<lambda>r. r name) (rows csv)"
    using len assms(2) by (intro setitem_other_cells) simp_all
  then show ?thesis
    using tc by (simp add: df getitem_def setitem_def)
qed

text \<open>
  C10. Line 121 reads the column called \<open>timestamp\<close>, whatever the configured time
  column is. For a time column of another name: a file without a column \<open>timestamp\<close>
  never yields a resume point, and once it is loaded (lines 117 and 118) the access raises
  \<open>KeyError\<close>; a column \<open>timestamp\<close> that exists is left as read by the parsing of the
  time column, so the resume point is the cell as it stands in the file.
\<close>

theorem C10_timestamp_column_is_hard_coded:
  assumes "tc \<noteq> ''timestamp''"
  shows "(''timestamp'' \<notin> set (columns csv) \<longrightarrow>
            (\<exists>e. resume_point tc (Some csv) = Inl e) \<and>
            (\<forall>df. load_existing tc csv = Inr df \<longrightarrow>
               resume_point tc (Some csv) = Inl (KeyError ''timestamp''))) \<and>
         (\<forall>df. load_existing tc csv = Inr df \<longrightarrow>
            getitem df ''timestamp'' = getitem csv ''timestamp'' \<and>
            oldest_point_of df = oldest_point_of csv)"
proof -
  have other: "getitem df ''timestamp'' = getitem csv ''timestamp''"
    if "load_existing tc csv = Inr df" for df
    using that assms by (intro load_existing_other_column) auto
  then have old: "oldest_point_of df = oldest_point_of csv"
    if "load_existing tc csv = Inr df" for df
    using that by (simp add: oldest_point_of_def)
  have "resume_point tc (Some csv) = Inl (KeyError ''timestamp'')"
    if "''timestamp'' \<notin> set (columns csv)" "load_existing tc csv = Inr df" for df
    using that old [OF that(2)] by (simp add: oldest_point_of_def getitem_def)
  moreover have "\<exists>e. resume_point tc (Some csv) = Inl e"
    if "''timestamp'' \<notin> set (columns csv)"
    using that old by (cases "load_existing tc csv") (auto simp: oldest_point_of_def getitem_def)
  ultimately show ?thesis using other old by blast
qed

theorem C10_other_time_column_witness:
  "''time'' \<noteq> ''timestamp'' \<and> ''timestamp'' \<notin> set (columns csv_time_only) \<and>
   load_existing ''time'' csv_time_only =
     Inr \<lparr>columns = [''time''], rows = [[''time'' \<mapsto> Datetime epoch_floor]]\<rparr> \<and>
   resume_point ''time'' (Some csv_time_only) = Inl (KeyError ''timestamp'')"
proof -
  have n: "''time'' \<noteq> ''timestamp''" by simp
  have c: "''timestamp'' \<notin> set (columns csv_time_only)"
    by (simp add: csv_time_only_def)
  have l: "load_existing ''time'' csv_time_only =
     Inr \<lparr>columns = [''time''], rows = [[''time'' \<mapsto> Datetime epoch_floor]]\<rparr>"
    by (simp add: csv_time_only_def load_existing_def getitem_def setitem_def)
  from C10_timestamp_column_is_hard_coded [OF n, of csv_time_only] c l
  have "resume_point ''time'' (Some csv_time_only) = Inl (KeyError ''timestamp'')"
    by blast
  with n c l show ?thesis by blast
qed

section \<open>The series merger\<close>

lemma ordered_Nil [simp]: "ordered key []"
  by (simp add: ordered_def)

lemma ordered_Cons:
  "ordered key (x # xs) = ((\<forall>y \<in> set xs. key x < key y) \<and> ordered key xs)"
  by (simp add: ordered_def)

lemma row_at_Nil [simp]: "row_at key [] t = None"
  by (simp add: row_at_def)

lemma row_at_Cons:
  "row_at key (x # xs) t = (if key x = t then Some x else row_at key xs t)"
  by (simp add: row_at_def)

lemma row_at_append:
  "row_at key (xs @ ys) t = (case row_at key xs t of Some r \<Rightarrow> Some r | None \<Rightarrow> row_at key ys t)"
  by (induction xs) (auto simp: row_at_Cons)

lemma row_at_Some: "row_at key xs t = Some r \<Longrightarrow> r \<in> set xs \<and> key r = t"
  by (induction xs) (auto simp: row_at_Cons split: if_splits)

lemma row_at_None: "row_at key xs t = None \<longleftrightarrow> t \<notin> key ` set xs"
  by (induction xs) (auto simp: row_at_Cons)

lemma row_at_member: "ordered key xs \<Longrightarrow> x \<in> set xs \<Longrightarrow> row_at key xs (key x) = Some x"
  by (induction xs) (auto simp: row_at_Cons ordered_Cons)

lemma set_upsert_subset: "set (upsert key r xs) \<subseteq> insert r (set xs)"
  by (induction xs) auto

lemma ordered_upsert: "ordered key xs \<Longrightarrow> ordered key (upsert key r xs)"
proof (induction xs)
  case Nil
  then show ?case by (simp add: ordered_def)
next
  case (Cons x xs)
  have "key x < key y" if "key x < key r" "y \<in> set (upsert key r xs)" for y
    using that Cons.prems set_upsert_subset [of key r xs] by (auto simp: ordered_Cons)
  with Cons show ?case by (auto simp: ordered_Cons)
qed

lemma row_at_upsert:
  "ordered key xs \<Longrightarrow> row_at key (upsert key r xs) t = (if t = key r then Some r else row_at key xs t)"
proof (induction xs)
  case Nil
  then show ?case by (simp add: row_at_Cons)
next
  case (Cons x xs)
  have "row_at key xs (key r) = None" if "key r \<le> key x"
    using that Cons.prems by (force simp: row_at_None ordered_Cons)
  with Cons show ?case by (auto simp: row_at_Cons ordered_Cons)
qed

lemma ordered_merge: "ordered key table \<Longrightarrow> ordered key (SeriesMerger key table batch)"
  unfolding SeriesMerger_def
  by (induction batch arbitrary: table) (simp_all add: ordered_upsert)

lemma row_at_merge:
  "ordered key table \<Longrightarrow>
   row_at key (SeriesMerger key table batch) t =
     (case row_at key (rev batch) t of Some r \<Rightarrow> Some r | None \<Rightarrow> row_at key table t)"
  unfolding SeriesMerger_def
proof (induction batch arbitrary: table)
  case Nil
  then show ?case by simp
next
  case (Cons b batch)
  have "row_at key (rev batch @ [b]) t =
      (case row_at key (rev batch) t of Some r \<Rightarrow> Some r | None \<Rightarrow> if key b = t then Some b else None)"
    by (simp add: row_at_append row_at_Cons split: option.splits)
  with Cons show ?case
    by (auto simp: ordered_upsert row_at_upsert split: option.splits)
qed

lemma row_at_rev: "ordered key xs \<Longrightarrow> row_at key (rev xs) t = row_at key xs t"
proof (cases "row_at key xs t")
  case None
  then have "row_at key (rev xs) t = None" by (simp add: row_at_None)
  with None show ?thesis by simp
next
  case (Some r)
  assume o: "ordered key xs"
  from Some have r: "r \<in> set xs" "key r = t" using row_at_Some by fastforce+
  obtain r' where "row_at key (rev xs) t = Some r'"
    using r by (cases "row_at key (rev xs) t") (auto simp: row_at_None)
  then have "r' \<in> set xs" "key r' = t" using row_at_Some by fastforce+
  with o have "row_at key xs t = Some r'" using row_at_member by fastforce
  with Some \<open>row_at key (rev xs) t = Some r'\<close> show ?thesis by simp
qed







text \<open>
  C6. For an ordered table and an ordered batch, the merged table has at every timestamp
  of the batch the row of the batch (so also where the table has a row of its own), keeps
  the rows of the table that are older than every row of the batch, and is strictly
  ordered by timestamp, without duplicate keys.
\<close>

theorem C6_merge_takes_batch_rows_and_stays_ordered:
  assumes "ordered key table" and "ordered key batch"
  shows "(\<forall>t r. row_at key batch t = Some r \<longrightarrow>
            row_at key (SeriesMerger key table batch) t = Some r) \<and>
         (\<forall>x \<in> set table. (\<forall>r \<in> set batch. key x < key r) \<longrightarrow>
            row_at key (SeriesMerger key table batch) (key x) = Some x) \<and>
         ordered key (SeriesMerger key table batch) \<and>
         distinct (map key (SeriesMerger key table batch))"
proof -
  have m: "row_at key (SeriesMerger key table batch) t =
      (case row_at key batch t of Some r \<Rightarrow> Some r | None \<Rightarrow> row_at key table t)" for t
    using assms by (simp add: row_at_merge row_at_rev)
  have "row_at key batch (key x) = None" if "\<forall>r \<in> set batch. key x < key r" for x
    using that by (force simp: row_at_None)
  then have "row_at key (SeriesMerger key table batch) (key x) = Some x"
    if "x \<in> set table" "\<forall>r \<in> set batch. key x < key r" for x
    using that assms(1) by (simp add: m row_at_member)
  moreover have o: "ordered key (SeriesMerger key table batch)"
    using assms(1) by (rule ordered_merge)
  moreover have "distinct (map key (SeriesMerger key table batch))"
    using o unfolding ordered_def
    by (simp add: sorted_wrt_map [symmetric] strict_sorted_iff)
  ultimately show ?thesis by (simp add: m)
qed

theorem C6_merge_witness:
  "ordered fst [(1, ''a''), (2, ''b''), (3, ''c'')] \<and> ordered fst [(3, ''C''), (4, ''d'')] \<and>
   SeriesMerger fst [(1, ''a''), (2, ''b''), (3, ''c'')] [(3, ''C''), (4, ''d'')] =
     [(1, ''a''), (2, ''b''), (3, ''C''), (4, ''d'')] \<and>
   row_at fst (SeriesMerger fst [(1, ''a''), (2, ''b''), (3, ''c'')] [(3, ''C''), (4, ''d'')]) 3
     = Some (3, ''C'') \<and>
   row_at fst (SeriesMerger fst [(1, ''a''), (2, ''b''), (3, ''c'')] [(3, ''C''), (4, ''d'')]) 1
     = Some (1, ''a'')"
  using C6_merge_takes_batch_rows_and_stays_ordered
    [of fst "[(1, ''a''), (2, ''b''), (3, ''c'')]" "[(3, ''C''), (4, ''d'')]"]
  by (simp add: ordered_def SeriesMerger_def row_at_def)

section \<open>A run on a written file against a remote series\<close>


lemma open_time_bar_at [simp]: "open_time (bar_at t) = t"
  by (simp add: open_time_def bar_at_def)

lemma is_bar_bar_at [simp]: "is_bar (bar_at t)"
  by (simp add: is_bar_def bar_at_def)



lemma open_time_reparsed [simp]: "open_time (reparsed r) = open_time r"
  by (simp add: open_time_def reparsed_def)










lemma merge_Nil [simp]: "SeriesMerger key table [] = table"
  by (simp add: SeriesMerger_def)



















lemma length_daily [simp]: "length (daily n) = n"
  by (simp add: daily_def)





section \<open>Two runs in succession\<close>




end
